theory Spec2Isabelle
  imports Main "HOL-Library.List_Lexorder"
begin

section \<open>Values of the program\<close>

text \<open>
  A Python \<open>bytes\<close> object is a list of bytes; an Isabelle \<open>char\<close> is one byte, so the
  literal \<open>b"wrap-key"\<close> is \<open>''wrap-key''\<close>. A Python \<open>str\<close> is a list of Unicode code
  points, written here as natural numbers. Texts are assumed to be encodable (no lone
  surrogates), so \<open>str.encode\<close> is total; \<open>bytes.decode\<close> can fail.
\<close>

type_synonym bytes = "char list"
type_synonym str = "nat list"

definition ascii :: "string \<Rightarrow> str" where
  "ascii s = map of_char s"

text \<open>
  The exceptions the engine can raise. Every failure of \<open>logic.py\<close> itself is a
  \<open>ValueError\<close> told apart by its message; the others come out of the libraries and
  are passed on unchanged: \<open>InvalidTag\<close> (AES-GCM authentication),
  \<open>IntegrityError\<close> (an SQLite constraint), \<open>InvalidHashError\<close> (argon2 given a
  malformed stored hash), \<open>UnicodeDecodeError\<close> and \<open>TypeError\<close>.
\<close>

datatype error =
    ValueError string
  | InvalidTag
  | IntegrityError string
  | InvalidHashError
  | UnicodeDecodeError
  | TypeError

datatype verify_result = Verified | VerifyMismatch | InvalidHash

section \<open>Library primitives\<close>

text \<open>
  The functions of the Python runtime and of the packages \<open>argon2\<close> and
  \<open>cryptography\<close> that the engine calls. They are not part of the repository, so the
  embedding takes them as a parameter \<open>L\<close>; a theorem that needs a property of one of
  them states it as a hypothesis.
\<close>

record lib =
  str_lower :: "str \<Rightarrow> str"
  isalnum :: "nat \<Rightarrow> bool"
  isspace :: "nat \<Rightarrow> bool"
  utf8_encode :: "str \<Rightarrow> bytes"
  utf8_decode :: "bytes \<Rightarrow> str option"
  argon2_hash :: "bytes \<Rightarrow> str \<Rightarrow> str"
  argon2_verify :: "str \<Rightarrow> str \<Rightarrow> verify_result"
  scrypt :: "bytes \<Rightarrow> bytes \<Rightarrow> nat \<Rightarrow> bytes"
  hkdf_sha256 :: "bytes \<Rightarrow> bytes \<Rightarrow> nat \<Rightarrow> bytes"
  aesgcm_enc :: "bytes \<Rightarrow> bytes \<Rightarrow> bytes \<Rightarrow> bytes \<Rightarrow> bytes"
  aesgcm_dec :: "bytes \<Rightarrow> bytes \<Rightarrow> bytes \<Rightarrow> bytes \<Rightarrow> bytes option"
  hmac_sha256 :: "bytes \<Rightarrow> bytes \<Rightarrow> bytes"

text \<open>
  What one call of the engine reads from its surroundings: whether SQLite enforces
  foreign keys on a connection that never issued the pragma (a compile-time default of
  SQLite; only \<open>init_db\<close> and \<open>migrate_db\<close> issue it, on their own connections),
  whether the database file is there for \<open>_backup_database\<close>, the clock, and the
  operating system's random bytes: \<open>urandom e i j\<close> is byte \<open>j\<close> of the \<open>i\<close>-th
  draw of the call.
\<close>

record env =
  foreign_keys :: bool
  db_file_exists :: bool
  utcnow :: str
  urandom :: "nat \<Rightarrow> nat \<Rightarrow> char"

definition token_bytes :: "env \<Rightarrow> nat \<Rightarrow> nat \<Rightarrow> bytes" where
  "token_bytes E i n = map (urandom E i) [0..<n]"

section \<open>crypto.py\<close>

definition KEK_LEN :: nat where "KEK_LEN = 32"
definition DEK_LEN :: nat where "DEK_LEN = 32"
definition NONCE_LEN :: nat where "NONCE_LEN = 12"

definition HKDF_INFO_ENC :: bytes where
  "HKDF_INFO_ENC = ''cyberjournal/enc-key''"

definition HKDF_INFO_HMAC :: bytes where
  "HKDF_INFO_HMAC = ''cyberjournal/search-key''"

record SessionKeys =
  sess_user_id :: int
  sess_username :: str
  sess_dek :: bytes
  sess_enc_key :: bytes
  sess_search_key :: bytes

text \<open>\<open>PH.hash\<close> draws its 16-byte salt itself; it is draw \<open>i\<close> of the call.\<close>

definition PH_hash :: "lib \<Rightarrow> env \<Rightarrow> nat \<Rightarrow> str \<Rightarrow> str" where
  "PH_hash L E i password = argon2_hash L (token_bytes E i 16) password"

definition PH_verify :: "lib \<Rightarrow> str \<Rightarrow> str \<Rightarrow> verify_result" where
  "PH_verify L hash password = argon2_verify L hash password"

definition scrypt_kdf :: "lib \<Rightarrow> str \<Rightarrow> bytes \<Rightarrow> nat \<Rightarrow> bytes" where
  "scrypt_kdf L password salt len = scrypt L (utf8_encode L password) salt len"

definition hkdf_derive :: "lib \<Rightarrow> bytes \<Rightarrow> bytes \<Rightarrow> nat \<Rightarrow> bytes" where
  "hkdf_derive L key_material info len = hkdf_sha256 L key_material info len"

text \<open>\<open>aesgcm_encrypt\<close> draws a fresh nonce (draw \<open>i\<close>) and returns it with the ciphertext.\<close>

definition aesgcm_encrypt :: "lib \<Rightarrow> env \<Rightarrow> nat \<Rightarrow> bytes \<Rightarrow> bytes \<Rightarrow> bytes \<Rightarrow> bytes \<times> bytes" where
  "aesgcm_encrypt L E i key plaintext aad =
     (let nonce = token_bytes E i NONCE_LEN
      in (nonce, aesgcm_enc L key nonce plaintext aad))"

definition aesgcm_decrypt :: "lib \<Rightarrow> bytes \<Rightarrow> bytes \<Rightarrow> bytes \<Rightarrow> bytes \<Rightarrow> error + bytes" where
  "aesgcm_decrypt L key nonce ciphertext aad =
     (case aesgcm_dec L key nonce ciphertext aad of
        None \<Rightarrow> Inl InvalidTag
      | Some plaintext \<Rightarrow> Inr plaintext)"

subsection \<open>Search tokenization\<close>

text \<open>
  \<open>TOKEN_SPLIT_RE\<close> is \<open>[\W_]+\<close> under \<open>re.UNICODE\<close>: \<open>\w\<close> is an alphanumeric
  code point or the underscore (code point 95), and the class adds the underscore to
  the complement of \<open>\w\<close>.
\<close>

definition is_word :: "lib \<Rightarrow> nat \<Rightarrow> bool" where
  "is_word L c = (isalnum L c \<or> c = 95)"

definition TOKEN_SPLIT_class :: "lib \<Rightarrow> nat \<Rightarrow> bool" where
  "TOKEN_SPLIT_class L c = (\<not> is_word L c \<or> c = 95)"

text \<open>
  \<open>re.split\<close> for a pattern \<open>[...]+\<close>: the text is cut at every maximal run of
  characters of the class (a match takes the whole run); a run at the start or at the
  end leaves an empty piece there, and the empty text gives one empty piece.
\<close>

function re_split :: "('c \<Rightarrow> bool) \<Rightarrow> 'c list \<Rightarrow> 'c list list" where
  "re_split sep [] = [[]]"
| "re_split sep (c # cs) =
     (if sep c then [] # re_split sep (dropWhile sep cs)
      else
        (case re_split sep cs of
           [] \<Rightarrow> [[c]]
         | w # ws \<Rightarrow> (c # w) # ws))"
  by pat_completeness auto
termination
  by (relation "measure (\<lambda>(sep, xs). length xs)")
     (auto simp: length_dropWhile_le less_Suc_eq_le)

definition normalize_tokens :: "lib \<Rightarrow> str \<Rightarrow> str list" where
  "normalize_tokens L text =
     filter (\<lambda>p. p \<noteq> []) (re_split (TOKEN_SPLIT_class L) (str_lower L text))"

definition hmac_token :: "lib \<Rightarrow> bytes \<Rightarrow> str \<Rightarrow> bytes" where
  "hmac_token L search_key token = hmac_sha256 L search_key (utf8_encode L token)"

section \<open>db.py\<close>

text \<open>
  The three tables of \<open>SCHEMA_SQL\<close>. A row is a record of its columns; a column that
  may be \<open>NULL\<close> is an option. A table is the list of its rows in insertion order, and
  the two \<open>AUTOINCREMENT\<close> counters are the values SQLite keeps in \<open>sqlite_sequence\<close>.
\<close>

record user_row =
  u_id :: int
  u_username :: str
  u_pwd_hash :: str
  u_kek_salt :: bytes
  u_dek_wrapped :: bytes
  u_dek_wrap_nonce :: bytes
  u_security_question :: str
  u_security_answer_hash :: str
  u_created_at :: str

record entry_row =
  e_id :: int
  e_user_id :: int
  e_created_at :: str
  e_title_nonce :: bytes
  e_title_ct :: bytes
  e_body_nonce :: bytes
  e_body_ct :: bytes
  e_map_nonce :: "bytes option"
  e_map_ct :: "bytes option"
  e_map_format :: "str option"

record store =
  users :: "user_row list"
  users_seq :: int
  entries :: "entry_row list"
  entries_seq :: int
  entry_terms :: "(int \<times> bytes) list"

text \<open>
  Every function of \<open>db.py\<close> opens its own connection, runs one statement and commits,
  so each is one atomic step on the store. A statement that raises leaves the store as
  it was (the connection is closed without a commit).
\<close>

definition get_user_by_username :: "str \<Rightarrow> store \<Rightarrow> user_row option" where
  "get_user_by_username username db = find (\<lambda>u. u_username u = username) (users db)"

text \<open>
  \<open>INSERT INTO users\<close>: the \<open>UNIQUE\<close> constraint on \<open>username\<close> raises
  \<open>IntegrityError\<close>; otherwise the new id is one more than the largest id the table
  has ever held.
\<close>

definition insert_user ::
  "str \<Rightarrow> str \<Rightarrow> bytes \<Rightarrow> bytes \<Rightarrow> bytes \<Rightarrow> str \<Rightarrow> str \<Rightarrow> str \<Rightarrow> store \<Rightarrow> (error + unit) \<times> store" where
  "insert_user username pwd_hash kek_salt dek_wrapped dek_wrap_nonce
       security_question security_answer_hash created_at db =
     (if username \<in> set (map u_username (users db))
      then (Inl (IntegrityError ''UNIQUE constraint failed: users.username''), db)
      else
        (let new_id = fold max (map u_id (users db)) (users_seq db) + 1
         in (Inr (),
             db\<lparr>users := users db @
                   [\<lparr>u_id = new_id, u_username = username, u_pwd_hash = pwd_hash,
                     u_kek_salt = kek_salt, u_dek_wrapped = dek_wrapped,
                     u_dek_wrap_nonce = dek_wrap_nonce,
                     u_security_question = security_question,
                     u_security_answer_hash = security_answer_hash,
                     u_created_at = created_at\<rparr>],
                users_seq := new_id\<rparr>)))"

definition update_user_credentials ::
  "int \<Rightarrow> str \<Rightarrow> bytes \<Rightarrow> bytes \<Rightarrow> bytes \<Rightarrow> store \<Rightarrow> store" where
  "update_user_credentials user_id pwd_hash kek_salt dek_wrapped dek_wrap_nonce db =
     db\<lparr>users :=
          map (\<lambda>u. if u_id u = user_id
                    then u\<lparr>u_pwd_hash := pwd_hash, u_kek_salt := kek_salt,
                           u_dek_wrapped := dek_wrapped,
                           u_dek_wrap_nonce := dek_wrap_nonce\<rparr>
                    else u)
              (users db)\<rparr>"

text \<open>
  \<open>INSERT OR IGNORE INTO entry_terms\<close>, one pair after the other in one transaction: a
  pair already stored is skipped (\<open>UNIQUE(entry_id, term_hash)\<close>); where foreign keys
  are enforced, a pair whose entry does not exist raises and the transaction is lost.
\<close>

fun insert_or_ignore ::
  "bool \<Rightarrow> int list \<Rightarrow> (int \<times> bytes) list \<Rightarrow> (int \<times> bytes) list \<Rightarrow> (int \<times> bytes) list option" where
  "insert_or_ignore fk ids [] rows = Some rows"
| "insert_or_ignore fk ids (p # ps) rows =
     (if p \<in> set rows then insert_or_ignore fk ids ps rows
      else if fk \<and> fst p \<notin> set ids then None
      else insert_or_ignore fk ids ps (rows @ [p]))"

definition insert_entry_terms :: "env \<Rightarrow> (int \<times> bytes) list \<Rightarrow> store \<Rightarrow> (error + unit) \<times> store" where
  "insert_entry_terms E pairs db =
     (if pairs = [] then (Inr (), db)
      else
        (case insert_or_ignore (foreign_keys E) (map e_id (entries db)) pairs (entry_terms db) of
           None \<Rightarrow> (Inl (IntegrityError ''FOREIGN KEY constraint failed''), db)
         | Some rows \<Rightarrow> (Inr (), db\<lparr>entry_terms := rows\<rparr>)))"



definition get_entry_ids_for_term :: "bytes \<Rightarrow> store \<Rightarrow> int list" where
  "get_entry_ids_for_term term_hash db =
     map fst (filter (\<lambda>r. snd r = term_hash) (entry_terms db))"

definition update_entry_row ::
  "int \<Rightarrow> int \<Rightarrow> bytes \<Rightarrow> bytes \<Rightarrow> bytes \<Rightarrow> bytes \<Rightarrow> store \<Rightarrow> store" where
  "update_entry_row entry_id user_id title_nonce title_ct body_nonce body_ct db =
     db\<lparr>entries :=
          map (\<lambda>e. if e_id e = entry_id \<and> e_user_id e = user_id
                    then e\<lparr>e_title_nonce := title_nonce, e_title_ct := title_ct,
                           e_body_nonce := body_nonce, e_body_ct := body_ct\<rparr>
                    else e)
              (entries db)\<rparr>"


text \<open>
  \<open>DELETE FROM entries WHERE user_id = ?\<close>. The term rows of the deleted entries go
  with them (\<open>ON DELETE CASCADE\<close>) only where the connection enforces foreign keys.
\<close>

definition delete_entries_for_user :: "env \<Rightarrow> int \<Rightarrow> store \<Rightarrow> store" where
  "delete_entries_for_user E user_id db =
     (let gone = map e_id (filter (\<lambda>e. e_user_id e = user_id) (entries db))
      in db\<lparr>entries := filter (\<lambda>e. e_user_id e \<noteq> user_id) (entries db),
            entry_terms :=
              (if foreign_keys E
               then filter (\<lambda>r. fst r \<notin> set gone) (entry_terms db)
               else entry_terms db)\<rparr>)"

definition clear_entry_terms :: "int \<Rightarrow> store \<Rightarrow> store" where
  "clear_entry_terms entry_id db =
     db\<lparr>entry_terms := filter (\<lambda>r. fst r \<noteq> entry_id) (entry_terms db)\<rparr>"

section \<open>logic.py\<close>

definition backup_database :: "env \<Rightarrow> error + unit" where
  "backup_database E =
     (if \<not> db_file_exists E then Inl (ValueError ''Database file not found for backup'')
      else Inr ())"

text \<open>\<open>str.strip()\<close> removes the whitespace at both ends.\<close>

definition str_strip :: "lib \<Rightarrow> str \<Rightarrow> str" where
  "str_strip L s = rev (dropWhile (isspace L) (rev (dropWhile (isspace L) s)))"

definition register_user ::
  "lib \<Rightarrow> env \<Rightarrow> str \<Rightarrow> str \<Rightarrow> str \<Rightarrow> str \<Rightarrow> store \<Rightarrow> (error + unit) \<times> store" where
  "register_user L E username password security_question security_answer db =
     (let created_at = utcnow E;
          pwd_hash = PH_hash L E 0 password
      in if str_strip L security_question = [] \<or> str_strip L security_answer = []
         then (Inl (ValueError ''Security question and answer are required''), db)
         else
           (let answer_hash = PH_hash L E 1 security_answer;
                dek = token_bytes E 2 DEK_LEN;
                kek_salt = token_bytes E 3 16;
                kek = scrypt_kdf L password kek_salt 32;
                wrap_key = hkdf_derive L kek ''wrap-key'' 32;
                (nonce, wrapped) = aesgcm_encrypt L E 4 wrap_key dek (utf8_encode L username)
            in insert_user username pwd_hash kek_salt wrapped nonce
                 security_question answer_hash created_at db))"

definition login_user :: "lib \<Rightarrow> str \<Rightarrow> str \<Rightarrow> store \<Rightarrow> error + SessionKeys" where
  "login_user L username password db =
     (case get_user_by_username username db of
        None \<Rightarrow> Inl (ValueError ''User not found'')
      | Some row \<Rightarrow>
          (case PH_verify L (u_pwd_hash row) password of
             VerifyMismatch \<Rightarrow> Inl (ValueError ''Invalid password'')
           | InvalidHash \<Rightarrow> Inl InvalidHashError
           | Verified \<Rightarrow>
               (let kek = scrypt_kdf L password (u_kek_salt row) 32;
                    wrap_key = hkdf_derive L kek ''wrap-key'' 32
                in case aesgcm_decrypt L wrap_key (u_dek_wrap_nonce row) (u_dek_wrapped row)
                          (utf8_encode L (u_username row)) of
                     Inl e \<Rightarrow> Inl e
                   | Inr dek \<Rightarrow>
                       (let enc_key = hkdf_derive L dek HKDF_INFO_ENC 32;
                            search_key = hkdf_derive L dek HKDF_INFO_HMAC 32
                        in Inr \<lparr>sess_user_id = u_id row,
                                sess_username = u_username row,
                                sess_dek = dek,
                                sess_enc_key = enc_key,
                                sess_search_key = search_key\<rparr>))))"

text \<open>The expression \<open>aesgcm_decrypt(...).decode()\<close>: authenticate and decrypt, then decode.\<close>

definition decrypt_decode :: "lib \<Rightarrow> bytes \<Rightarrow> bytes \<Rightarrow> bytes \<Rightarrow> bytes \<Rightarrow> error + str" where
  "decrypt_decode L key nonce ciphertext aad =
     (case aesgcm_decrypt L key nonce ciphertext aad of
        Inl e \<Rightarrow> Inl e
      | Inr plaintext \<Rightarrow>
          (case utf8_decode L plaintext of
             None \<Rightarrow> Inl UnicodeDecodeError
           | Some text \<Rightarrow> Inr text))"





definition reset_password_with_security_answer ::
  "lib \<Rightarrow> env \<Rightarrow> str \<Rightarrow> str \<Rightarrow> str \<Rightarrow> store \<Rightarrow> (error + unit) \<times> store" where
  "reset_password_with_security_answer L E username security_answer new_password db =
     (if security_answer = [] then (Inl (ValueError ''Security answer required''), db)
      else if new_password = [] then (Inl (ValueError ''New password required''), db)
      else
        (case get_user_by_username username db of
           None \<Rightarrow> (Inl (ValueError ''User not found''), db)
         | Some row \<Rightarrow>
        (case PH_verify L (u_security_answer_hash row) security_answer of
           VerifyMismatch \<Rightarrow> (Inl (ValueError ''Invalid security answer''), db)
         | InvalidHash \<Rightarrow> (Inl InvalidHashError, db)
         | Verified \<Rightarrow>
        (case backup_database E of
           Inl e \<Rightarrow> (Inl e, db)
         | Inr u \<Rightarrow>
        (let db1 = delete_entries_for_user E (u_id row) db;
             new_dek = token_bytes E 0 DEK_LEN;
             new_pwd_hash = PH_hash L E 1 new_password;
             new_kek_salt = token_bytes E 2 16;
             new_kek = scrypt_kdf L new_password new_kek_salt 32;
             new_wrap_key = hkdf_derive L new_kek ''wrap-key'' 32;
             (new_nonce, new_wrapped) =
               aesgcm_encrypt L E 3 new_wrap_key new_dek (utf8_encode L username)
         in (Inr (),
             update_user_credentials (u_id row)
               new_pwd_hash new_kek_salt new_wrapped new_nonce db1))))))"

definition update_entry ::
  "lib \<Rightarrow> env \<Rightarrow> SessionKeys \<Rightarrow> int \<Rightarrow> str \<Rightarrow> str \<Rightarrow> store \<Rightarrow> (error + unit) \<times> store" where
  "update_entry L E sess entry_id new_title new_body db =
     (let aad = utf8_encode L (sess_username sess);
          (t_nonce, t_ct) = aesgcm_encrypt L E 0 (sess_enc_key sess) (utf8_encode L new_title) aad;
          (b_nonce, b_ct) = aesgcm_encrypt L E 1 (sess_enc_key sess) (utf8_encode L new_body) aad;
          db1 = update_entry_row entry_id (sess_user_id sess) t_nonce t_ct b_nonce b_ct db;
          db2 = clear_entry_terms entry_id db1;
          terms = remdups (normalize_tokens L new_title @ normalize_tokens L new_body);
          pairs = map (\<lambda>t. (entry_id, hmac_token L (sess_search_key sess) t)) terms
      in if pairs \<noteq> [] then insert_entry_terms E pairs db2 else (Inr (), db2))"


definition search_entries :: "lib \<Rightarrow> SessionKeys \<Rightarrow> str \<Rightarrow> store \<Rightarrow> int list" where
  "search_entries L sess query db =
     (let tokens = filter (\<lambda>t. t \<noteq> []) (normalize_tokens L query)
      in if tokens = [] then []
         else
           (let id_sets =
                  map (\<lambda>token.
                         set (get_entry_ids_for_term
                                (hmac_token L (sess_search_key sess) token) db))
                      tokens
            in case id_sets of
                 [] \<Rightarrow> []
               | s # ss \<Rightarrow> rev (sorted_list_of_set (fold (\<inter>) ss s))))"

section \<open>An instance of the parameters\<close>

text \<open>
  To run the engine on concrete inputs the parameters need values. \<open>small_lib\<close> gives
  the functions of the Python runtime on a small alphabet (ASCII and the Greek letters
  U+0391, U+03A3, U+03B1, U+03C2, U+03C3, code points below 2048 for UTF-8) and
  transparent stand-ins for the cryptographic functions.

  \<open>str.lower()\<close> maps every code point through the lowercase table, except the capital
  sigma U+03A3: CPython turns it into the final form U+03C2 when a cased letter comes
  before it and none comes after it, case-ignorable characters skipped on both sides,
  and into U+03C3 otherwise.
\<close>

definition py_cased :: "nat \<Rightarrow> bool" where
  "py_cased c =
     ((65 \<le> c \<and> c \<le> 90) \<or> (97 \<le> c \<and> c \<le> 122) \<or> c \<in> set [913, 931, 945, 962, 963])"

definition py_case_ignorable :: "nat \<Rightarrow> bool" where
  "py_case_ignorable c = (c \<in> set [39, 46, 58, 94, 96])"

definition py_tolower :: "nat \<Rightarrow> nat" where
  "py_tolower c = (if 65 \<le> c \<and> c \<le> 90 then c + 32 else if c = 913 then 945 else c)"

definition final_sigma :: "nat list \<Rightarrow> nat list \<Rightarrow> bool" where
  "final_sigma seen rest =
     ((case dropWhile py_case_ignorable seen of [] \<Rightarrow> False | d # ds \<Rightarrow> py_cased d) \<and>
      (case dropWhile py_case_ignorable rest of [] \<Rightarrow> True | d # ds \<Rightarrow> \<not> py_cased d))"

text \<open>\<open>seen\<close> holds the code points already read, the nearest first.\<close>

fun py_lower_from :: "nat list \<Rightarrow> str \<Rightarrow> str" where
  "py_lower_from seen [] = []"
| "py_lower_from seen (c # cs) =
     (if c = 931 then (if final_sigma seen cs then 962 else 963) else py_tolower c)
       # py_lower_from (c # seen) cs"

definition py_lower :: "str \<Rightarrow> str" where
  "py_lower s = py_lower_from [] s"

definition py_isalnum :: "nat \<Rightarrow> bool" where
  "py_isalnum c =
     ((48 \<le> c \<and> c \<le> 57) \<or> (65 \<le> c \<and> c \<le> 90) \<or> (97 \<le> c \<and> c \<le> 122)
        \<or> c \<in> set [913, 931, 945, 962, 963])"

definition py_isspace :: "nat \<Rightarrow> bool" where
  "py_isspace c = ((9 \<le> c \<and> c \<le> 13) \<or> (28 \<le> c \<and> c \<le> 32))"

definition small_encode :: "str \<Rightarrow> bytes" where
  "small_encode s =
     concat (map (\<lambda>c. if c < 128 then [char_of c]
                        else [char_of (192 + c div 64), char_of (128 + c mod 64)]) s)"

fun small_decode :: "bytes \<Rightarrow> str option" where
  "small_decode [] = Some []"
| "small_decode [b] = (if of_char b < (128::nat) then Some [of_char b] else None)"
| "small_decode (b # b2 # bs) =
     (if of_char b < (128::nat) then map_option ((#) (of_char b)) (small_decode (b2 # bs))
      else if (194::nat) \<le> of_char b \<and> of_char b < (224::nat)
              \<and> (128::nat) \<le> of_char b2 \<and> of_char b2 < (192::nat)
      then map_option ((#) ((of_char b - 192) * 64 + (of_char b2 - 128))) (small_decode bs)
      else None)"

text \<open>
  The stand-ins: a hash is \<open>$\<close> followed by the password; a derived key is the label
  (or the password) followed by the key material; a ciphertext is key, nonce and
  associated data followed by the plaintext, and decryption checks that prefix; a
  digest is the key followed by the message.
\<close>

definition toy_argon2_verify :: "str \<Rightarrow> str \<Rightarrow> verify_result" where
  "toy_argon2_verify h password =
     (case h of
        [] \<Rightarrow> InvalidHash
      | c # r \<Rightarrow> if c \<noteq> 36 then InvalidHash
                 else if r = password then Verified else VerifyMismatch)"

definition toy_aesgcm_dec :: "bytes \<Rightarrow> bytes \<Rightarrow> bytes \<Rightarrow> bytes \<Rightarrow> bytes option" where
  "toy_aesgcm_dec key nonce ct aad =
     (let hdr = key @ nonce @ aad
      in if take (length hdr) ct = hdr then Some (drop (length hdr) ct) else None)"

definition small_lib :: lib where
  "small_lib =
     \<lparr>str_lower = py_lower,
      isalnum = py_isalnum,
      isspace = py_isspace,
      utf8_encode = small_encode,
      utf8_decode = small_decode,
      argon2_hash = (\<lambda>salt password. 36 # password),
      argon2_verify = toy_argon2_verify,
      scrypt = (\<lambda>password salt len. password @ salt),
      hkdf_sha256 = (\<lambda>key_material info len. info @ key_material),
      aesgcm_enc = (\<lambda>key nonce plaintext aad. key @ nonce @ aad @ plaintext),
      aesgcm_dec = toy_aesgcm_dec,
      hmac_sha256 = (\<lambda>key msg. key @ msg)\<rparr>"

text \<open>An environment: foreign keys as SQLite ships (not enforced), draw \<open>i\<close> all bytes \<open>i\<close>.\<close>

definition small_env :: env where
  "small_env =
     \<lparr>foreign_keys = False,
      db_file_exists = True,
      utcnow = ascii ''2024-01-01T00:00:00'',
      urandom = (\<lambda>i j. char_of i)\<rparr>"

section \<open>Notions used in the statements\<close>

text \<open>The pieces of a split that are not empty, and the token set of a text.\<close>

definition tokens_of :: "('c \<Rightarrow> bool) \<Rightarrow> 'c list \<Rightarrow> 'c list list" where
  "tokens_of sep xs = filter (\<lambda>p. p \<noteq> []) (re_split sep xs)"

definition tokenize :: "lib \<Rightarrow> str \<Rightarrow> str set" where
  "tokenize L text = set (normalize_tokens L text)"

definition separators :: "lib \<Rightarrow> str \<Rightarrow> bool" where
  "separators L p = list_all (TOKEN_SPLIT_class L) p"

text \<open>
  The term rows that \<open>add_entry\<close>, \<open>update_entry\<close> and the loop of
  \<open>change_password_logged_in\<close> build for an entry: one pair for each token of the
  title and the body.
\<close>

definition entry_pairs :: "lib \<Rightarrow> bytes \<Rightarrow> int \<Rightarrow> str \<Rightarrow> str \<Rightarrow> (int \<times> bytes) list" where
  "entry_pairs L search_key entry_id title body =
     map (\<lambda>t. (entry_id, hmac_token L search_key t))
       (remdups (normalize_tokens L title @ normalize_tokens L body))"

text \<open>Two versions of a row that agree in every column but the title and body columns.\<close>

definition same_frame :: "entry_row \<Rightarrow> entry_row \<Rightarrow> bool" where
  "same_frame e e' =
     (e_id e' = e_id e \<and> e_user_id e' = e_user_id e \<and> e_created_at e' = e_created_at e
      \<and> e_map_nonce e' = e_map_nonce e \<and> e_map_ct e' = e_map_ct e
      \<and> e_map_format e' = e_map_format e)"


text \<open>
  What the theorems ask of the libraries: AES-GCM decrypts what it encrypted under the
  same key, nonce and associated data, and argon2 accepts the password a hash was made
  from.
\<close>

definition aesgcm_roundtrip :: "lib \<Rightarrow> bool" where
  "aesgcm_roundtrip L =
     (\<forall>key nonce plaintext aad.
        aesgcm_dec L key nonce (aesgcm_enc L key nonce plaintext aad) aad = Some plaintext)"

definition argon2_accepts :: "lib \<Rightarrow> bool" where
  "argon2_accepts L = (\<forall>salt password. argon2_verify L (argon2_hash L salt password) password = Verified)"

text \<open>
  The credential row after \<open>change_password_logged_in\<close> or
  \<open>reset_password_with_security_answer\<close>: the new key is draw 0 of the call, wrapped
  under the key derived from the new password and the new salt (draw 2) with the nonce
  of draw 3; the password hash is made with draw 1.
\<close>

definition rewrapped :: "lib \<Rightarrow> env \<Rightarrow> str \<Rightarrow> str \<Rightarrow> user_row \<Rightarrow> user_row" where
  "rewrapped L E username new_password row =
     (let new_kek_salt = token_bytes E 2 16;
          new_wrap_key = hkdf_derive L (scrypt_kdf L new_password new_kek_salt 32) ''wrap-key'' 32;
          (new_nonce, new_wrapped) =
            aesgcm_encrypt L E 3 new_wrap_key (token_bytes E 0 DEK_LEN) (utf8_encode L username)
      in row\<lparr>u_pwd_hash := PH_hash L E 1 new_password,
               u_kek_salt := new_kek_salt,
               u_dek_wrapped := new_wrapped,
               u_dek_wrap_nonce := new_nonce\<rparr>)"

section \<open>A small journal\<close>

text \<open>
  One user, \<open>alice\<close> with the password \<open>pw\<close>, her session, and two entries as
  \<open>add_entry\<close> stores them under the session's keys; the second carries a map payload.
  In \<open>tampered_store\<close> the title ciphertext of the older entry has been overwritten.
\<close>

definition demo_sess :: SessionKeys where
  "demo_sess =
     \<lparr>sess_user_id = 1,
      sess_username = ascii ''alice'',
      sess_dek = ''dek-0'',
      sess_enc_key = hkdf_derive small_lib ''dek-0'' HKDF_INFO_ENC 32,
      sess_search_key = hkdf_derive small_lib ''dek-0'' HKDF_INFO_HMAC 32\<rparr>"

definition demo_user :: user_row where
  "demo_user =
     \<lparr>u_id = 1,
      u_username = ascii ''alice'',
      u_pwd_hash = argon2_hash small_lib ''0123456789abcdef'' (ascii ''pw''),
      u_kek_salt = ''salt'',
      u_dek_wrapped =
        aesgcm_enc small_lib
          (hkdf_derive small_lib (scrypt_kdf small_lib (ascii ''pw'') ''salt'' 32) ''wrap-key'' 32)
          ''n'' ''dek-0'' (small_encode (ascii ''alice'')),
      u_dek_wrap_nonce = ''n'',
      u_security_question = ascii ''pet name?'',
      u_security_answer_hash = argon2_hash small_lib ''0123456789abcdef'' (ascii ''Rex''),
      u_created_at = ascii ''2024-01-01''\<rparr>"

definition demo_entry :: "int \<Rightarrow> str \<Rightarrow> str \<Rightarrow> str \<Rightarrow> str option \<Rightarrow> entry_row" where
  "demo_entry i created title body map_text =
     \<lparr>e_id = i,
      e_user_id = 1,
      e_created_at = created,
      e_title_nonce = ''t'',
      e_title_ct = aesgcm_enc small_lib (sess_enc_key demo_sess) ''t''
                     (small_encode title) (small_encode (ascii ''alice'')),
      e_body_nonce = ''b'',
      e_body_ct = aesgcm_enc small_lib (sess_enc_key demo_sess) ''b''
                    (small_encode body) (small_encode (ascii ''alice'')),
      e_map_nonce = map_option (\<lambda>m. ''m'') map_text,
      e_map_ct = map_option (\<lambda>m. aesgcm_enc small_lib (sess_enc_key demo_sess) ''m''
                                    (small_encode m) (small_encode (ascii ''alice''))) map_text,
      e_map_format = Some (ascii ''ascii'')\<rparr>"

definition entry1 :: entry_row where
  "entry1 = demo_entry 1 (ascii ''2024-01-01'') (ascii ''Night Storm'') (ascii ''rain fell'') None"

definition entry2 :: entry_row where
  "entry2 = demo_entry 2 (ascii ''2024-01-02'') (ascii ''Day 2'') (ascii ''storm again'')
              (Some (ascii ''#.#''))"

definition demo_store :: store where
  "demo_store =
     \<lparr>users = [demo_user],
      users_seq = 1,
      entries = [entry1, entry2],
      entries_seq = 2,
      entry_terms =
        entry_pairs small_lib (sess_search_key demo_sess) 1 (ascii ''Night Storm'') (ascii ''rain fell'')
        @ entry_pairs small_lib (sess_search_key demo_sess) 2 (ascii ''Day 2'') (ascii ''storm again'')\<rparr>"

definition tampered_store :: store where
  "tampered_store = demo_store\<lparr>entries := [entry1\<lparr>e_title_ct := ''x''\<rparr>, entry2]\<rparr>"


lemmas small_tok =
  normalize_tokens_def tokenize_def small_lib_def ascii_def py_lower_def py_tolower_def
  TOKEN_SPLIT_class_def is_word_def py_isalnum_def final_sigma_def py_case_ignorable_def
  py_cased_def separators_def

lemmas small_crypto =
  toy_argon2_verify_def toy_aesgcm_dec_def small_encode_def hkdf_derive_def scrypt_kdf_def
  aesgcm_decrypt_def aesgcm_encrypt_def hmac_token_def PH_hash_def PH_verify_def
  HKDF_INFO_ENC_def HKDF_INFO_HMAC_def decrypt_decode_def char_of_eq_iff

lemmas small_journal =
  demo_sess_def demo_user_def demo_entry_def entry1_def entry2_def demo_store_def
  tampered_store_def entry_pairs_def

section \<open>Tokenization\<close>

lemma re_split_not_Nil: "re_split sep xs \<noteq> []"
  by (cases xs) (auto split: list.splits)

lemma tokens_of_Nil: "tokens_of sep [] = []"
  by (simp add: tokens_of_def)

lemma tokens_of_dropWhile: "tokens_of sep (dropWhile sep xs) = tokens_of sep xs"
  by (induction xs) (auto simp: tokens_of_def)

lemma tokens_of_sep_Cons: "sep c \<Longrightarrow> tokens_of sep (c # cs) = tokens_of sep cs"
  using tokens_of_dropWhile[of sep cs] by (simp add: tokens_of_def)

lemma tokens_of_sep_run: "\<forall>c\<in>set p. sep c \<Longrightarrow> tokens_of sep (p @ v) = tokens_of sep v"
  by (induction p) (simp_all add: tokens_of_sep_Cons)

lemma re_split_word_Cons:
  "\<not> sep c \<Longrightarrow> re_split sep (c # cs) = (c # hd (re_split sep cs)) # tl (re_split sep cs)"
  using re_split_not_Nil[of sep cs] by (cases "re_split sep cs") simp_all

text \<open>The first piece is the text up to the first separator; the tokens after it are
  those of the remainder.\<close>

lemma hd_re_split: "hd (re_split sep xs) = takeWhile (\<lambda>c. \<not> sep c) xs"
proof (induction xs)
  case Nil
  then show ?case by simp
next
  case (Cons c cs)
  show ?case
  proof (cases "sep c")
    case True
    then show ?thesis by simp
  next
    case False
    with Cons show ?thesis by (simp add: re_split_word_Cons del: re_split.simps)
  qed
qed

lemma tl_re_split:
  "filter (\<lambda>p. p \<noteq> []) (tl (re_split sep xs)) = tokens_of sep (dropWhile (\<lambda>c. \<not> sep c) xs)"
proof (induction xs)
  case Nil
  then show ?case by (simp add: tokens_of_def)
next
  case (Cons c cs)
  show ?case
  proof (cases "sep c")
    case True
    then show ?thesis by (simp add: tokens_of_def)
  next
    case False
    with Cons show ?thesis by (simp add: re_split_word_Cons del: re_split.simps)
  qed
qed

lemma tokens_of_word_Cons:
  "\<not> sep c \<Longrightarrow> tokens_of sep (c # cs) =
     (c # takeWhile (\<lambda>c. \<not> sep c) cs) # tokens_of sep (dropWhile (\<lambda>c. \<not> sep c) cs)"
proof -
  assume c: "\<not> sep c"
  have "tokens_of sep (c # cs) =
          (c # hd (re_split sep cs)) # filter (\<lambda>p. p \<noteq> []) (tl (re_split sep cs))"
    unfolding tokens_of_def by (simp only: re_split_word_Cons[of sep c cs, OF c]) simp
  then show ?thesis by (simp only: hd_re_split tl_re_split)
qed

text \<open>A run of separators inside a text cuts it: the tokens are those of the two sides.\<close>

lemma tokens_of_append_run:
  "p \<noteq> [] \<Longrightarrow> \<forall>c\<in>set p. sep c \<Longrightarrow>
     tokens_of sep (u @ p @ v) = tokens_of sep u @ tokens_of sep v"
proof (induction u rule: length_induct)
  case (1 u)
  show ?case
  proof (cases u)
    case Nil
    with 1 show ?thesis by (simp add: tokens_of_sep_run tokens_of_Nil)
  next
    case (Cons c cs)
    show ?thesis
    proof (cases "sep c")
      case True
      with 1 Cons show ?thesis by (simp add: tokens_of_sep_Cons)
    next
      case False
      let ?w = "takeWhile (\<lambda>c. \<not> sep c) cs" and ?r = "dropWhile (\<lambda>c. \<not> sep c) cs"
      obtain a p' where p: "p = a # p'" and a: "sep a" using 1(2,3) by (cases p) auto
      have tw: "takeWhile (\<lambda>c. \<not> sep c) (cs @ p @ v) = ?w"
        using a p by (induction cs) auto
      have dw: "dropWhile (\<lambda>c. \<not> sep c) (cs @ p @ v) = ?r @ p @ v"
        using a p by (induction cs) auto
      have "length ?r < length u" using Cons by (simp add: length_dropWhile_le le_imp_less_Suc)
      with 1 have "tokens_of sep (?r @ p @ v) = tokens_of sep ?r @ tokens_of sep v" by blast
      with False Cons tw dw show ?thesis
        by (simp add: tokens_of_word_Cons)
    qed
  qed
qed

lemma tokens_of_run_end: "\<forall>c\<in>set p. sep c \<Longrightarrow> tokens_of sep (u @ p) = tokens_of sep u"
proof (cases "p = []")
  case True
  then show ?thesis by simp
next
  case False
  assume "\<forall>c\<in>set p. sep c"
  with False tokens_of_append_run[of p sep u "[]"] show ?thesis
    by (simp add: tokens_of_Nil)
qed

lemma normalize_tokens_tokens_of:
  "normalize_tokens L text = tokens_of (TOKEN_SPLIT_class L) (str_lower L text)"
  by (simp add: normalize_tokens_def tokens_of_def)

lemma normalize_tokens_nonempty: "[] \<notin> set (normalize_tokens L text)"
  by (simp add: normalize_tokens_def)

text \<open>
  Claim C8, as far as the code bears it out. The token set of a text is a function of
  the text (so it is the same on every call) and never holds the empty token. It
  depends on the text only through its lowercase form: two texts with the same
  lowercase form have the same tokens, and so have a text and its lowercase form
  wherever lowercasing twice is lowercasing once. Two texts whose lowercase forms
  differ only in one run of separator characters (a non-empty run replaced by another
  non-empty run, or a run added at the start or at the end) have the same tokens.
\<close>

theorem tokenize_insensitive:
  "tokenize L text = tokenize L text
   \<and> (\<forall>a b. str_lower L a = str_lower L b \<longrightarrow> tokenize L a = tokenize L b)
   \<and> (str_lower L (str_lower L text) = str_lower L text
        \<longrightarrow> tokenize L (str_lower L text) = tokenize L text)
   \<and> (\<forall>a b x y p q. separators L p \<and> separators L q \<and> p \<noteq> [] \<and> q \<noteq> []
          \<and> str_lower L a = x @ p @ y \<and> str_lower L b = x @ q @ y
        \<longrightarrow> tokenize L a = tokenize L b)
   \<and> (\<forall>a b x p. separators L p \<and> str_lower L a = x @ p \<and> str_lower L b = x
        \<longrightarrow> tokenize L a = tokenize L b)
   \<and> (\<forall>a b x p. separators L p \<and> str_lower L a = p @ x \<and> str_lower L b = x
        \<longrightarrow> tokenize L a = tokenize L b)
   \<and> [] \<notin> tokenize L text"
proof -
  have case_only: "tokenize L a = tokenize L b" if "str_lower L a = str_lower L b" for a b
    using that by (simp add: tokenize_def normalize_tokens_def)
  have middle: "tokenize L a = tokenize L b"
    if "separators L p" "separators L q" "p \<noteq> []" "q \<noteq> []"
       "str_lower L a = x @ p @ y" "str_lower L b = x @ q @ y" for a b x y p q
  proof -
    have "\<forall>c\<in>set p. TOKEN_SPLIT_class L c" "\<forall>c\<in>set q. TOKEN_SPLIT_class L c"
      using that(1,2) by (simp_all add: separators_def list_all_iff)
    then have "normalize_tokens L a = normalize_tokens L b"
      using that(3-6) by (simp add: normalize_tokens_tokens_of tokens_of_append_run)
    then show ?thesis by (simp add: tokenize_def)
  qed
  have at_end: "tokenize L a = tokenize L b"
    if "separators L p" "str_lower L a = x @ p" "str_lower L b = x" for a b x p
  proof -
    have "\<forall>c\<in>set p. TOKEN_SPLIT_class L c"
      using that(1) by (simp add: separators_def list_all_iff)
    then have "normalize_tokens L a = normalize_tokens L b"
      using that(2,3) by (simp add: normalize_tokens_tokens_of tokens_of_run_end)
    then show ?thesis by (simp add: tokenize_def)
  qed
  have at_start: "tokenize L a = tokenize L b"
    if "separators L p" "str_lower L a = p @ x" "str_lower L b = x" for a b x p
  proof -
    have "\<forall>c\<in>set p. TOKEN_SPLIT_class L c"
      using that(1) by (simp add: separators_def list_all_iff)
    then have "normalize_tokens L a = normalize_tokens L b"
      using that(2,3) by (simp add: normalize_tokens_tokens_of tokens_of_sep_run)
    then show ?thesis by (simp add: tokenize_def)
  qed
  have no_empty: "[] \<notin> tokenize L text"
    by (simp add: tokenize_def normalize_tokens_nonempty)
  show ?thesis
  proof (intro conjI allI impI)
    show "tokenize L text = tokenize L text" by (rule refl)
  next
    fix a b assume "str_lower L a = str_lower L b"
    then show "tokenize L a = tokenize L b" by (rule case_only)
  next
    assume "str_lower L (str_lower L text) = str_lower L text"
    then show "tokenize L (str_lower L text) = tokenize L text" by (rule case_only)
  next
    fix a b x y p q
    assume "separators L p \<and> separators L q \<and> p \<noteq> [] \<and> q \<noteq> []
          \<and> str_lower L a = x @ p @ y \<and> str_lower L b = x @ q @ y"
    then show "tokenize L a = tokenize L b" using middle[of p q a x y b] by simp
  next
    fix a b x p
    assume "separators L p \<and> str_lower L a = x @ p \<and> str_lower L b = x"
    then show "tokenize L a = tokenize L b" using at_end[of p a x b] by simp
  next
    fix a b x p
    assume "separators L p \<and> str_lower L a = p @ x \<and> str_lower L b = x"
    then show "tokenize L a = tokenize L b" using at_start[of p a x b] by simp
  next
    show "[] \<notin> tokenize L text" by (rule no_empty)
  qed
qed

text \<open>
  The theorem at \<open>Storm!\<close> and \<open>storm\<close>, at two spellings of \<open>night storm\<close> and at
  \<open>STORM\<close>.
\<close>

theorem tokenize_insensitive_witness:
  "tokenize small_lib (ascii ''Storm!'') = tokenize small_lib (ascii ''storm'')
   \<and> tokenize small_lib (ascii ''Night, Storm'') = tokenize small_lib (ascii ''night - storm'')
   \<and> tokenize small_lib (ascii ''STORM'') = {ascii ''storm''}"
proof -
  have a: "separators small_lib (ascii ''!'')" "str_lower small_lib (ascii ''Storm!'') = ascii ''storm'' @ ascii ''!''"
    "str_lower small_lib (ascii ''storm'') = ascii ''storm''"
    by (simp_all add: small_tok)
  have b: "separators small_lib (ascii '', '')" "separators small_lib (ascii '' - '')"
     "ascii '', '' \<noteq> []" "ascii '' - '' \<noteq> []"
     "str_lower small_lib (ascii ''Night, Storm'') = ascii ''night'' @ ascii '', '' @ ascii ''storm''"
     "str_lower small_lib (ascii ''night - storm'') = ascii ''night'' @ ascii '' - '' @ ascii ''storm''"
    by (simp_all add: small_tok)
  have c: "str_lower small_lib (ascii ''STORM'') = str_lower small_lib (ascii ''storm'')"
    by (simp add: small_tok)
  have d: "tokenize small_lib (ascii ''storm'') = {ascii ''storm''}"
    by (simp add: small_tok)
  note t = tokenize_insensitive[of small_lib "[]"]
  have 1: "tokenize small_lib (ascii ''Storm!'') = tokenize small_lib (ascii ''storm'')"
    using t a by blast
  have 2: "tokenize small_lib (ascii ''Night, Storm'') = tokenize small_lib (ascii ''night - storm'')"
    using t b by blast
  have 3: "tokenize small_lib (ascii ''STORM'') = tokenize small_lib (ascii ''storm'')"
    using t c by blast
  from 1 2 3 d show ?thesis by simp
qed

text \<open>
  Claim C8 as stated fails: a change of the text in separator characters alone can
  change the tokens, because \<open>str.lower()\<close> looks across them. The capital sigma of
  \<open>U+0391 U+03A3 . U+0391\<close> is lowered to U+03C3 (the full stop is case-ignorable and a
  cased letter follows), that of \<open>U+0391 U+03A3 ! U+0391\<close> to the final form U+03C2.
\<close>

theorem tokenize_punctuation_counterexample:
  "separators small_lib [46] \<and> separators small_lib [33]
   \<and> tokenize small_lib ([913, 931] @ [46] @ [913]) \<noteq> tokenize small_lib ([913, 931] @ [33] @ [913])"
proof -
  have s: "separators small_lib [46]" "separators small_lib [33]"
    by (simp_all add: small_tok)
  have a: "normalize_tokens small_lib ([913, 931] @ [46] @ [913]) = [[945, 963], [945]]"
    by (simp add: small_tok)
  have b: "normalize_tokens small_lib ([913, 931] @ [33] @ [913]) = [[945, 962], [945]]"
    by (simp add: small_tok)
  have "[945, 963] \<in> tokenize small_lib ([913, 931] @ [46] @ [913])"
    by (simp only: tokenize_def a) simp
  moreover have "[945, 963] \<notin> tokenize small_lib ([913, 931] @ [33] @ [913])"
    by (simp only: tokenize_def b) simp
  ultimately have "tokenize small_lib ([913, 931] @ [46] @ [913])
      \<noteq> tokenize small_lib ([913, 931] @ [33] @ [913])"
    by blast
  with s show ?thesis by blast
qed

section \<open>Search\<close>

lemma fold_Int: "fold (\<inter>) ss s = s \<inter> \<Inter> (set ss)"
  by (induction ss arbitrary: s) auto

lemma set_get_entry_ids_for_term:
  "set (get_entry_ids_for_term th db) = {e. (e, th) \<in> set (entry_terms db)}"
  by (auto simp: get_entry_ids_for_term_def image_iff)

lemma filter_normalize_tokens:
  "filter (\<lambda>t. t \<noteq> []) (normalize_tokens L query) = normalize_tokens L query"
  by (simp add: normalize_tokens_def)

lemma search_entries_Nil:
  "normalize_tokens L query = [] \<Longrightarrow> search_entries L sess query db = []"
  by (simp add: search_entries_def)

lemma search_entries_Cons:
  assumes "normalize_tokens L query \<noteq> []"
  shows "search_entries L sess query db =
       rev (sorted_list_of_set
         (\<Inter>token\<in>set (normalize_tokens L query).
            set (get_entry_ids_for_term (hmac_token L (sess_search_key sess) token) db)))"
proof -
  obtain t ts where ts: "normalize_tokens L query = t # ts"
    using assms by (cases "normalize_tokens L query") auto
  have "search_entries L sess query db =
          (let tokens = normalize_tokens L query
           in if tokens = [] then []
              else
                (case map (\<lambda>token. set (get_entry_ids_for_term
                              (hmac_token L (sess_search_key sess) token) db)) tokens of
                   [] \<Rightarrow> []
                 | s # ss \<Rightarrow> rev (sorted_list_of_set (fold (\<inter>) ss s))))"
    by (simp only: search_entries_def filter_normalize_tokens Let_def)
  then show ?thesis
    by (simp add: ts fold_Int)
qed

text \<open>
  Claim C2. A query without tokens finds nothing. Otherwise \<open>search_entries\<close> returns
  exactly the intersection, over the tokens of the query, of the entry ids stored under
  the token's keyed digest: an id is returned if and only if it is indexed under every
  token of the query. The result is strictly descending, so it is sorted by id, newest
  first, and has no duplicates.
\<close>

theorem search_entries_intersection:
  "(normalize_tokens L query = [] \<longrightarrow> search_entries L sess query db = [])
   \<and> (normalize_tokens L query \<noteq> [] \<longrightarrow>
        set (search_entries L sess query db) =
          (\<Inter>token\<in>set (normalize_tokens L query).
             set (get_entry_ids_for_term (hmac_token L (sess_search_key sess) token) db))
        \<and> set (search_entries L sess query db) =
            {e. \<forall>token\<in>set (normalize_tokens L query).
                  (e, hmac_token L (sess_search_key sess) token) \<in> set (entry_terms db)})
   \<and> sorted_wrt (>) (search_entries L sess query db)
   \<and> distinct (search_entries L sess query db)"
proof (cases "normalize_tokens L query = []")
  case True
  then show ?thesis by (simp add: search_entries_Nil)
next
  case False
  let ?S = "\<Inter>token\<in>set (normalize_tokens L query).
             set (get_entry_ids_for_term (hmac_token L (sess_search_key sess) token) db)"
  obtain t where t: "t \<in> set (normalize_tokens L query)"
    using False by (cases "normalize_tokens L query") auto
  have "?S \<subseteq> set (get_entry_ids_for_term (hmac_token L (sess_search_key sess) t) db)"
    using t by blast
  then have fin: "finite ?S" by (rule finite_subset) simp
  have eq: "search_entries L sess query db = rev (sorted_list_of_set ?S)"
    using False by (rule search_entries_Cons)
  have s: "set (search_entries L sess query db) = ?S"
    using fin by (simp add: eq)
  have s': "?S = {e. \<forall>token\<in>set (normalize_tokens L query).
                  (e, hmac_token L (sess_search_key sess) token) \<in> set (entry_terms db)}"
    by (auto simp: set_get_entry_ids_for_term)
  have o: "sorted_wrt (>) (search_entries L sess query db)"
    by (simp only: eq sorted_wrt_rev strict_sorted_list_of_set)
  have d: "distinct (search_entries L sess query db)"
    by (simp add: eq)
  from False s s' o d show ?thesis by simp
qed

text \<open>The tokens and the term rows of the small journal.\<close>

lemma demo_tokens:
  "normalize_tokens small_lib (ascii ''Storm, rain!'') = [ascii ''storm'', ascii ''rain'']"
  "normalize_tokens small_lib (ascii ''storm'') = [ascii ''storm'']"
  "normalize_tokens small_lib (ascii '' ?! '') = []"
  "normalize_tokens small_lib (ascii ''Night Storm'') = [ascii ''night'', ascii ''storm'']"
  "normalize_tokens small_lib (ascii ''rain fell'') = [ascii ''rain'', ascii ''fell'']"
  "normalize_tokens small_lib (ascii ''Day 2'') = [ascii ''day'', ascii ''2'']"
  "normalize_tokens small_lib (ascii ''storm again'') = [ascii ''storm'', ascii ''again'']"
  by (simp_all add: small_tok)

lemma demo_terms:
  "entry_terms demo_store =
     [(1, ''cyberjournal/search-keydek-0night''),
      (1, ''cyberjournal/search-keydek-0storm''),
      (1, ''cyberjournal/search-keydek-0rain''),
      (1, ''cyberjournal/search-keydek-0fell''),
      (2, ''cyberjournal/search-keydek-0day''),
      (2, ''cyberjournal/search-keydek-02''),
      (2, ''cyberjournal/search-keydek-0storm''),
      (2, ''cyberjournal/search-keydek-0again'')]"
  unfolding demo_store_def entry_pairs_def demo_tokens
  by (simp add: demo_sess_def small_crypto small_lib_def ascii_def)

text \<open>
  The theorem on the small journal: a query of separators only, the query \<open>storm\<close>
  (both entries) and the query \<open>Storm, rain!\<close> (only the entry that has both words).
\<close>

theorem search_entries_intersection_witness:
  "search_entries small_lib demo_sess (ascii '' ?! '') demo_store = []
   \<and> set (search_entries small_lib demo_sess (ascii ''storm'') demo_store) = {1, 2}
   \<and> sorted_wrt (>) (search_entries small_lib demo_sess (ascii ''storm'') demo_store)
   \<and> set (search_entries small_lib demo_sess (ascii ''Storm, rain!'') demo_store) = {1}"
proof -
  have k: "sess_search_key demo_sess = ''cyberjournal/search-keydek-0''"
    by (simp add: demo_sess_def small_crypto small_lib_def)
  have h: "hmac_token small_lib ''cyberjournal/search-keydek-0'' (ascii ''storm'')
             = ''cyberjournal/search-keydek-0storm''"
     "hmac_token small_lib ''cyberjournal/search-keydek-0'' (ascii ''rain'')
             = ''cyberjournal/search-keydek-0rain''"
    by (simp_all add: small_crypto small_lib_def ascii_def)
  have 1: "search_entries small_lib demo_sess (ascii '' ?! '') demo_store = []"
    using search_entries_intersection[of small_lib "ascii '' ?! ''" demo_sess demo_store]
    by (simp add: demo_tokens)
  have 2: "set (search_entries small_lib demo_sess (ascii ''storm'') demo_store) = {1, 2}
           \<and> sorted_wrt (>) (search_entries small_lib demo_sess (ascii ''storm'') demo_store)"
    using search_entries_intersection[of small_lib "ascii ''storm''" demo_sess demo_store]
    by (auto simp: demo_tokens demo_terms k h)
  have 3: "set (search_entries small_lib demo_sess (ascii ''Storm, rain!'') demo_store) = {1}"
    using search_entries_intersection[of small_lib "ascii ''Storm, rain!''" demo_sess demo_store]
    by (auto simp: demo_tokens demo_terms k h)
  from 1 2 3 show ?thesis by simp
qed

section \<open>Updating an entry\<close>

text \<open>What \<open>INSERT OR IGNORE\<close> does to the table of term rows.\<close>

lemma insert_or_ignore_set:
  "insert_or_ignore fk ids ps rows = Some rows' \<Longrightarrow> set rows' = set rows \<union> set ps"
  by (induction fk ids ps rows rule: insert_or_ignore.induct) (auto split: if_splits)

lemma insert_or_ignore_distinct:
  "insert_or_ignore fk ids ps rows = Some rows' \<Longrightarrow> distinct rows \<Longrightarrow> distinct rows'"
  by (induction fk ids ps rows rule: insert_or_ignore.induct) (auto split: if_splits)

lemma insert_or_ignore_others:
  "insert_or_ignore fk ids ps rows = Some rows' \<Longrightarrow> \<forall>p\<in>set ps. \<not> keep p \<Longrightarrow>
     filter keep rows' = filter keep rows"
  by (induction fk ids ps rows rule: insert_or_ignore.induct) (auto split: if_splits)

lemma insert_entry_terms_frame:
  "insert_entry_terms E pairs db = (r, db') \<Longrightarrow>
     users db' = users db \<and> users_seq db' = users_seq db
     \<and> entries db' = entries db \<and> entries_seq db' = entries_seq db"
  by (auto simp: insert_entry_terms_def split: if_splits option.splits)

lemma insert_entry_terms_others:
  "insert_entry_terms E pairs db = (r, db') \<Longrightarrow> \<forall>p\<in>set pairs. \<not> keep p \<Longrightarrow>
     filter keep (entry_terms db') = filter keep (entry_terms db)"
  by (auto simp: insert_entry_terms_def insert_or_ignore_others split: if_splits option.splits)

lemma insert_entry_terms_set:
  "insert_entry_terms E pairs db = (Inr u, db') \<Longrightarrow>
     set (entry_terms db') = set (entry_terms db) \<union> set pairs"
  by (auto simp: insert_entry_terms_def dest: insert_or_ignore_set split: if_splits option.splits)

lemma insert_entry_terms_distinct:
  "insert_entry_terms E pairs db = (r, db') \<Longrightarrow> distinct (entry_terms db) \<Longrightarrow>
     distinct (entry_terms db')"
  by (auto simp: insert_entry_terms_def dest: insert_or_ignore_distinct split: if_splits option.splits)

lemma update_entry_unfold:
  "update_entry L E sess entry_id new_title new_body db =
     (let db2 = clear_entry_terms entry_id
                  (update_entry_row entry_id (sess_user_id sess)
                     (fst (aesgcm_encrypt L E 0 (sess_enc_key sess) (utf8_encode L new_title)
                            (utf8_encode L (sess_username sess))))
                     (snd (aesgcm_encrypt L E 0 (sess_enc_key sess) (utf8_encode L new_title)
                            (utf8_encode L (sess_username sess))))
                     (fst (aesgcm_encrypt L E 1 (sess_enc_key sess) (utf8_encode L new_body)
                            (utf8_encode L (sess_username sess))))
                     (snd (aesgcm_encrypt L E 1 (sess_enc_key sess) (utf8_encode L new_body)
                            (utf8_encode L (sess_username sess))))
                     db);
          pairs = entry_pairs L (sess_search_key sess) entry_id new_title new_body
      in if pairs \<noteq> [] then insert_entry_terms E pairs db2 else (Inr (), db2))"
  by (simp add: update_entry_def entry_pairs_def Let_def split_beta)

lemma set_entry_pairs:
  "set (entry_pairs L k entry_id title body) =
     (\<lambda>t. (entry_id, hmac_token L k t)) ` (tokenize L title \<union> tokenize L body)"
  by (simp add: entry_pairs_def tokenize_def)

text \<open>
  Claim C7. When \<open>update_entry\<close> has completed, the digests stored for the entry are
  exactly the keyed digests of the tokens of the new title and the new body: nothing
  computed from the earlier text is left. A table without duplicate pairs stays
  without duplicate pairs.
\<close>

theorem update_entry_terms_exact:
  assumes "update_entry L E sess entry_id new_title new_body db = (Inr u, db')"
  shows "{h. (entry_id, h) \<in> set (entry_terms db')} =
           hmac_token L (sess_search_key sess) ` (tokenize L new_title \<union> tokenize L new_body)
         \<and> (distinct (entry_terms db) \<longrightarrow> distinct (entry_terms db'))"
proof -
  let ?pairs = "entry_pairs L (sess_search_key sess) entry_id new_title new_body"
  define db1 where "db1 = update_entry_row entry_id (sess_user_id sess)
                     (fst (aesgcm_encrypt L E 0 (sess_enc_key sess) (utf8_encode L new_title)
                            (utf8_encode L (sess_username sess))))
                     (snd (aesgcm_encrypt L E 0 (sess_enc_key sess) (utf8_encode L new_title)
                            (utf8_encode L (sess_username sess))))
                     (fst (aesgcm_encrypt L E 1 (sess_enc_key sess) (utf8_encode L new_body)
                            (utf8_encode L (sess_username sess))))
                     (snd (aesgcm_encrypt L E 1 (sess_enc_key sess) (utf8_encode L new_body)
                            (utf8_encode L (sess_username sess))))
                     db"
  define db2 where "db2 = clear_entry_terms entry_id db1"
  have db2: "entry_terms db2 = filter (\<lambda>r. fst r \<noteq> entry_id) (entry_terms db)"
    by (simp add: db2_def db1_def clear_entry_terms_def update_entry_row_def)
  have res: "(if ?pairs \<noteq> [] then insert_entry_terms E ?pairs db2 else (Inr (), db2)) = (Inr u, db')"
    using assms unfolding update_entry_unfold Let_def db2_def db1_def by simp
  have s: "set (entry_terms db') = set (entry_terms db2) \<union> set ?pairs"
  proof (cases "?pairs = []")
    case True
    with res show ?thesis by simp
  next
    case False
    with res show ?thesis by (simp add: insert_entry_terms_set)
  qed
  have d: "distinct (entry_terms db')" if "distinct (entry_terms db)"
  proof -
    from that have "distinct (entry_terms db2)" by (simp add: db2)
    with res show ?thesis by (auto split: if_splits dest: insert_entry_terms_distinct)
  qed
  have "{h. (entry_id, h) \<in> set (entry_terms db')} = {h. (entry_id, h) \<in> set ?pairs}"
    by (auto simp: s db2)
  also have "\<dots> = hmac_token L (sess_search_key sess) ` (tokenize L new_title \<union> tokenize L new_body)"
    by (auto simp: set_entry_pairs)
  finally show ?thesis using d by blast
qed


text \<open>The theorem on the small journal: the older entry gets a new title and body.\<close>

theorem update_entry_terms_exact_witness:
  "{h. (1, h) \<in> set (entry_terms (snd (update_entry small_lib small_env demo_sess 1
          (ascii ''Calm Day'') (ascii ''sun, sun'') demo_store)))}
     = hmac_token small_lib (sess_search_key demo_sess) `
         (tokenize small_lib (ascii ''Calm Day'') \<union> tokenize small_lib (ascii ''sun, sun''))
   \<and> distinct (entry_terms (snd (update_entry small_lib small_env demo_sess 1
          (ascii ''Calm Day'') (ascii ''sun, sun'') demo_store)))"
proof -
  let ?r = "update_entry small_lib small_env demo_sess 1
              (ascii ''Calm Day'') (ascii ''sun, sun'') demo_store"
  have "fst ?r = Inr ()" by code_simp
  then have h: "?r = (Inr (), snd ?r)" by (metis prod.collapse)
  have d: "distinct (entry_terms demo_store)" by (simp add: demo_terms)
  from update_entry_terms_exact[OF h] d show ?thesis by blast
qed

lemma update_entry_row_frame:
  "list_all2 (\<lambda>e e'. same_frame e e' \<and> (e_id e \<noteq> entry_id \<longrightarrow> e' = e))
     (entries db) (entries (update_entry_row entry_id user_id tn tc bn bc db))"
  by (simp add: update_entry_row_def list_all2_map2 same_frame_def list.rel_refl)

text \<open>
  Claim C10. Whatever \<open>update_entry\<close> returns, the users table and both counters are
  as before; the entries table has the same rows in the same places, each with its id,
  owner, creation time and map columns unchanged, and every row of another entry is
  unchanged altogether; the term rows of the other entries are unchanged.
\<close>

theorem update_entry_frame:
  assumes "update_entry L E sess entry_id new_title new_body db = (r, db')"
  shows "users db' = users db \<and> users_seq db' = users_seq db
         \<and> entries_seq db' = entries_seq db
         \<and> list_all2 (\<lambda>e e'. same_frame e e' \<and> (e_id e \<noteq> entry_id \<longrightarrow> e' = e))
              (entries db) (entries db')
         \<and> filter (\<lambda>r. fst r \<noteq> entry_id) (entry_terms db')
             = filter (\<lambda>r. fst r \<noteq> entry_id) (entry_terms db)"
proof -
  let ?pairs = "entry_pairs L (sess_search_key sess) entry_id new_title new_body"
  define db1 where "db1 = update_entry_row entry_id (sess_user_id sess)
                     (fst (aesgcm_encrypt L E 0 (sess_enc_key sess) (utf8_encode L new_title)
                            (utf8_encode L (sess_username sess))))
                     (snd (aesgcm_encrypt L E 0 (sess_enc_key sess) (utf8_encode L new_title)
                            (utf8_encode L (sess_username sess))))
                     (fst (aesgcm_encrypt L E 1 (sess_enc_key sess) (utf8_encode L new_body)
                            (utf8_encode L (sess_username sess))))
                     (snd (aesgcm_encrypt L E 1 (sess_enc_key sess) (utf8_encode L new_body)
                            (utf8_encode L (sess_username sess))))
                     db"
  define db2 where "db2 = clear_entry_terms entry_id db1"
  have res: "(if ?pairs \<noteq> [] then insert_entry_terms E ?pairs db2 else (Inr (), db2)) = (r, db')"
    using assms unfolding update_entry_unfold Let_def db2_def db1_def by simp
  have f1: "users db1 = users db" "users_seq db1 = users_seq db" "entries_seq db1 = entries_seq db"
      "entry_terms db1 = entry_terms db"
    by (simp_all add: db1_def update_entry_row_def)
  have e1: "list_all2 (\<lambda>e e'. same_frame e e' \<and> (e_id e \<noteq> entry_id \<longrightarrow> e' = e))
              (entries db) (entries db1)"
    unfolding db1_def by (rule update_entry_row_frame)
  have f2: "users db2 = users db" "users_seq db2 = users_seq db" "entries_seq db2 = entries_seq db"
      "entries db2 = entries db1"
      "filter (\<lambda>r. fst r \<noteq> entry_id) (entry_terms db2)
         = filter (\<lambda>r. fst r \<noteq> entry_id) (entry_terms db)"
    by (simp_all add: db2_def clear_entry_terms_def f1)
  have p: "\<forall>p\<in>set ?pairs. \<not> fst p \<noteq> entry_id"
    by (auto simp: entry_pairs_def)
  show ?thesis
  proof (cases "?pairs = []")
    case True
    with res have "db' = db2" by simp
    with f2 e1 show ?thesis by simp
  next
    case False
    with res have i: "insert_entry_terms E ?pairs db2 = (r, db')" by simp
    from insert_entry_terms_frame[OF i] insert_entry_terms_others[OF i p] f2 e1
    show ?thesis by simp
  qed
qed

text \<open>The theorem on the small journal: the entry with the map payload is updated.\<close>

theorem update_entry_frame_witness:
  "users (snd (update_entry small_lib small_env demo_sess 2
           (ascii ''Calm Day'') (ascii ''sun, sun'') demo_store)) = users demo_store
   \<and> list_all2 (\<lambda>e e'. same_frame e e' \<and> (e_id e \<noteq> 2 \<longrightarrow> e' = e))
        (entries demo_store)
        (entries (snd (update_entry small_lib small_env demo_sess 2
           (ascii ''Calm Day'') (ascii ''sun, sun'') demo_store)))
   \<and> filter (\<lambda>r. fst r \<noteq> 2)
        (entry_terms (snd (update_entry small_lib small_env demo_sess 2
           (ascii ''Calm Day'') (ascii ''sun, sun'') demo_store)))
       = filter (\<lambda>r. fst r \<noteq> 2) (entry_terms demo_store)"
proof -
  let ?r = "update_entry small_lib small_env demo_sess 2
              (ascii ''Calm Day'') (ascii ''sun, sun'') demo_store"
  have h: "?r = (fst ?r, snd ?r)" by simp
  from update_entry_frame[OF h] show ?thesis by blast
qed

section \<open>Registration and login\<close>


lemma get_user_by_username_None:
  "get_user_by_username name db = None \<longleftrightarrow> name \<notin> u_username ` set (users db)"
  by (auto simp: get_user_by_username_def find_None_iff)




lemma find_snoc_None: "find P xs = None \<Longrightarrow> find P (xs @ [x]) = (if P x then Some x else None)"
  by (induction xs) (auto split: if_splits)

lemma aesgcm_decrypt_encrypt:
  "aesgcm_roundtrip L \<Longrightarrow>
     aesgcm_decrypt L key (fst (aesgcm_encrypt L E i key plaintext aad))
       (snd (aesgcm_encrypt L E i key plaintext aad)) aad = Inr plaintext"
  by (simp add: aesgcm_roundtrip_def aesgcm_decrypt_def aesgcm_encrypt_def Let_def)

lemma PH_verify_hash: "argon2_accepts L \<Longrightarrow> PH_verify L (PH_hash L E i password) password = Verified"
  by (simp add: argon2_accepts_def PH_verify_def PH_hash_def)

text \<open>The row that \<open>register_user\<close> inserts.\<close>

lemma register_user_Inr:
  assumes "register_user L E username password security_question security_answer db = (Inr u, db')"
  shows "get_user_by_username username db = None"
    and "get_user_by_username username db' =
           Some \<lparr>u_id = fold max (map u_id (users db)) (users_seq db) + 1,
                 u_username = username,
                 u_pwd_hash = PH_hash L E 0 password,
                 u_kek_salt = token_bytes E 3 16,
                 u_dek_wrapped =
                   snd (aesgcm_encrypt L E 4
                          (hkdf_derive L (scrypt_kdf L password (token_bytes E 3 16) 32) ''wrap-key'' 32)
                          (token_bytes E 2 DEK_LEN) (utf8_encode L username)),
                 u_dek_wrap_nonce =
                   fst (aesgcm_encrypt L E 4
                          (hkdf_derive L (scrypt_kdf L password (token_bytes E 3 16) 32) ''wrap-key'' 32)
                          (token_bytes E 2 DEK_LEN) (utf8_encode L username)),
                 u_security_question = security_question,
                 u_security_answer_hash = PH_hash L E 1 security_answer,
                 u_created_at = utcnow E\<rparr>"
proof -
  from assms have n: "username \<notin> u_username ` set (users db)"
    by (auto simp: register_user_def insert_user_def Let_def split_beta split: if_splits)
  then show "get_user_by_username username db = None"
    by (simp add: get_user_by_username_None)
  from n have f: "find (\<lambda>u. u_username u = username) (users db) = None"
    by (auto simp: find_None_iff)
  from assms n show "get_user_by_username username db' = Some \<lparr>u_id = fold max (map u_id (users db)) (users_seq db) + 1,
                 u_username = username,
                 u_pwd_hash = PH_hash L E 0 password,
                 u_kek_salt = token_bytes E 3 16,
                 u_dek_wrapped =
                   snd (aesgcm_encrypt L E 4
                          (hkdf_derive L (scrypt_kdf L password (token_bytes E 3 16) 32) ''wrap-key'' 32)
                          (token_bytes E 2 DEK_LEN) (utf8_encode L username)),
                 u_dek_wrap_nonce =
                   fst (aesgcm_encrypt L E 4
                          (hkdf_derive L (scrypt_kdf L password (token_bytes E 3 16) 32) ''wrap-key'' 32)
                          (token_bytes E 2 DEK_LEN) (utf8_encode L username)),
                 u_security_question = security_question,
                 u_security_answer_hash = PH_hash L E 1 security_answer,
                 u_created_at = utcnow E\<rparr>"
    by (auto simp: register_user_def insert_user_def Let_def split_beta get_user_by_username_def
          find_snoc_None[OF f] split: if_splits)
qed

lemma login_user_mismatch:
  "get_user_by_username name s = Some row \<Longrightarrow> PH_verify L (u_pwd_hash row) pw = VerifyMismatch \<Longrightarrow>
     login_user L name pw s = Inl (ValueError ''Invalid password'')"
  by (simp add: login_user_def)

lemma login_user_unknown:
  "get_user_by_username name s = None \<Longrightarrow> login_user L name pw s = Inl (ValueError ''User not found'')"
  by (simp add: login_user_def)

text \<open>
  Claim C4. After a registration that succeeded, \<open>login_user\<close> with the same name and
  password returns the session of the new user: its \<open>dek\<close> is the key drawn at
  registration (draw 2), unwrapped from the stored row, and its two subkeys are derived
  from that key with the two labels. This needs of the libraries that argon2 accepts the
  password it hashed and that AES-GCM decrypts what it encrypted. For every store, a
  password that the stored hash does not verify gives \<open>ValueError('Invalid password')\<close>
  (the authentication failure), and a name without a row gives
  \<open>ValueError('User not found')\<close>.
\<close>

theorem register_then_login:
  assumes "register_user L E username password security_question security_answer db = (Inr u, db')"
    and "argon2_accepts L" and "aesgcm_roundtrip L"
  shows "login_user L username password db' =
           Inr \<lparr>sess_user_id = fold max (map u_id (users db)) (users_seq db) + 1,
                sess_username = username,
                sess_dek = token_bytes E 2 DEK_LEN,
                sess_enc_key = hkdf_derive L (token_bytes E 2 DEK_LEN) HKDF_INFO_ENC 32,
                sess_search_key = hkdf_derive L (token_bytes E 2 DEK_LEN) HKDF_INFO_HMAC 32\<rparr>
         \<and> (\<forall>s name pw row.
               get_user_by_username name s = Some row
               \<and> PH_verify L (u_pwd_hash row) pw = VerifyMismatch
               \<longrightarrow> login_user L name pw s = Inl (ValueError ''Invalid password''))
         \<and> (\<forall>s name pw.
               get_user_by_username name s = None
               \<longrightarrow> login_user L name pw s = Inl (ValueError ''User not found''))"
proof -
  have "login_user L username password db' =
           Inr \<lparr>sess_user_id = fold max (map u_id (users db)) (users_seq db) + 1,
                sess_username = username,
                sess_dek = token_bytes E 2 DEK_LEN,
                sess_enc_key = hkdf_derive L (token_bytes E 2 DEK_LEN) HKDF_INFO_ENC 32,
                sess_search_key = hkdf_derive L (token_bytes E 2 DEK_LEN) HKDF_INFO_HMAC 32\<rparr>"
    by (simp add: login_user_def register_user_Inr(2)[OF assms(1)]
          PH_verify_hash[OF assms(2)] aesgcm_decrypt_encrypt[OF assms(3)] Let_def)
  then show ?thesis
    by (auto simp: login_user_mismatch login_user_unknown)
qed

text \<open>The stand-ins of \<open>small_lib\<close> meet both requirements.\<close>

lemma small_lib_ok: "argon2_accepts small_lib" "aesgcm_roundtrip small_lib"
  by (simp_all add: argon2_accepts_def aesgcm_roundtrip_def small_lib_def toy_argon2_verify_def
        toy_aesgcm_dec_def)

text \<open>
  The theorem on the small journal: \<open>bob\<close> registers and logs in; \<open>alice\<close> with a wrong
  password; \<open>carol\<close>, who never registered.
\<close>

theorem register_then_login_witness:
  "login_user small_lib (ascii ''bob'') (ascii ''Pw1!'')
     (snd (register_user small_lib small_env (ascii ''bob'') (ascii ''Pw1!'') (ascii ''pet name?'')
             (ascii ''Rex'') demo_store))
     = Inr \<lparr>sess_user_id = 2,
            sess_username = ascii ''bob'',
            sess_dek = token_bytes small_env 2 DEK_LEN,
            sess_enc_key = hkdf_derive small_lib (token_bytes small_env 2 DEK_LEN) HKDF_INFO_ENC 32,
            sess_search_key = hkdf_derive small_lib (token_bytes small_env 2 DEK_LEN) HKDF_INFO_HMAC 32\<rparr>
   \<and> login_user small_lib (ascii ''alice'') (ascii ''wrong'') demo_store
       = Inl (ValueError ''Invalid password'')
   \<and> login_user small_lib (ascii ''carol'') (ascii ''Pw1!'') demo_store
       = Inl (ValueError ''User not found'')"
proof -
  let ?r = "register_user small_lib small_env (ascii ''bob'') (ascii ''Pw1!'') (ascii ''pet name?'')
             (ascii ''Rex'') demo_store"
  have "fst ?r = Inr ()" by code_simp
  then have h: "?r = (Inr (), snd ?r)" by (metis prod.collapse)
  note t = register_then_login[OF h small_lib_ok]
  have i: "fold max (map u_id (users demo_store)) (users_seq demo_store) + 1 = 2"
    by (simp add: demo_store_def demo_user_def)
  have a: "get_user_by_username (ascii ''alice'') demo_store = Some demo_user"
    by (simp add: get_user_by_username_def demo_store_def demo_user_def)
  have m: "PH_verify small_lib (u_pwd_hash demo_user) (ascii ''wrong'') = VerifyMismatch"
    by (simp add: PH_verify_def demo_user_def small_lib_def toy_argon2_verify_def ascii_def)
  have c: "get_user_by_username (ascii ''carol'') demo_store = None"
    by (simp add: get_user_by_username_def demo_store_def demo_user_def ascii_def)
  from t i have 1: "login_user small_lib (ascii ''bob'') (ascii ''Pw1!'') (snd ?r)
     = Inr \<lparr>sess_user_id = 2,
            sess_username = ascii ''bob'',
            sess_dek = token_bytes small_env 2 DEK_LEN,
            sess_enc_key = hkdf_derive small_lib (token_bytes small_env 2 DEK_LEN) HKDF_INFO_ENC 32,
            sess_search_key = hkdf_derive small_lib (token_bytes small_env 2 DEK_LEN) HKDF_INFO_HMAC 32\<rparr>"
    by simp
  from t a m have 2: "login_user small_lib (ascii ''alice'') (ascii ''wrong'') demo_store
       = Inl (ValueError ''Invalid password'')" by blast
  from t c have 3: "login_user small_lib (ascii ''carol'') (ascii ''Pw1!'') demo_store
       = Inl (ValueError ''User not found'')" by blast
  from 1 2 3 show ?thesis by simp
qed

text \<open>
  The two subkeys of a session are derived from its \<open>dek\<close> with two labels that are
  different constants. Whether the derived keys differ is a matter of HKDF itself.
\<close>

lemma session_keys_labels:
  "HKDF_INFO_ENC \<noteq> HKDF_INFO_HMAC
   \<and> (login_user L username password db = Inr sess \<longrightarrow>
        sess_enc_key sess = hkdf_derive L (sess_dek sess) HKDF_INFO_ENC 32
        \<and> sess_search_key sess = hkdf_derive L (sess_dek sess) HKDF_INFO_HMAC 32)"
  by (auto simp: HKDF_INFO_ENC_def HKDF_INFO_HMAC_def login_user_def Let_def
        split: option.splits verify_result.splits sum.splits)

section \<open>Password reset\<close>






lemma reset_password_Inr:
  assumes "reset_password_with_security_answer L E username security_answer new_password db
             = (Inr u, db')"
  obtains row where "get_user_by_username username db = Some row"
    and "PH_verify L (u_security_answer_hash row) security_answer = Verified"
    and "db' = update_user_credentials (u_id row)
                 (u_pwd_hash (rewrapped L E username new_password row))
                 (u_kek_salt (rewrapped L E username new_password row))
                 (u_dek_wrapped (rewrapped L E username new_password row))
                 (u_dek_wrap_nonce (rewrapped L E username new_password row))
                 (delete_entries_for_user E (u_id row) db)"
  using assms
  by (auto simp: reset_password_with_security_answer_def Let_def split_beta rewrapped_def
        split: if_splits option.splits verify_result.splits sum.splits)







text \<open>
  The term rows of the deleted entries go only where foreign keys are enforced;
  \<open>delete_entries_for_user\<close> does not switch them on.
\<close>

lemma reset_password_term_rows:
  assumes "reset_password_with_security_answer L E username security_answer new_password db
             = (Inr u, db')"
  shows "\<exists>row. get_user_by_username username db = Some row
           \<and> entry_terms db' =
               (if foreign_keys E
                then filter (\<lambda>r. fst r \<notin> e_id ` {e \<in> set (entries db). e_user_id e = u_id row})
                       (entry_terms db)
                else entry_terms db)"
proof -
  from assms obtain row where row: "get_user_by_username username db = Some row"
    and db': "db' = update_user_credentials (u_id row)
                 (u_pwd_hash (rewrapped L E username new_password row))
                 (u_kek_salt (rewrapped L E username new_password row))
                 (u_dek_wrapped (rewrapped L E username new_password row))
                 (u_dek_wrap_nonce (rewrapped L E username new_password row))
                 (delete_entries_for_user E (u_id row) db)"
    by (rule reset_password_Inr)
  have "entry_terms db' =
               (if foreign_keys E
                then filter (\<lambda>r. fst r \<notin> e_id ` {e \<in> set (entries db). e_user_id e = u_id row})
                       (entry_terms db)
                else entry_terms db)"
    by (simp add: db' update_user_credentials_def delete_entries_for_user_def Let_def)
  with row show ?thesis by blast
qed

lemma reset_password_orphan_term_rows:
  "fst (reset_password_with_security_answer small_lib small_env (ascii ''alice'')
                (ascii ''Rex'') (ascii ''new-pw'') demo_store) = Inr ()
   \<and> entries (snd (reset_password_with_security_answer small_lib small_env (ascii ''alice'')
                (ascii ''Rex'') (ascii ''new-pw'') demo_store)) = []
   \<and> entry_terms (snd (reset_password_with_security_answer small_lib small_env (ascii ''alice'')
                (ascii ''Rex'') (ascii ''new-pw'') demo_store)) = entry_terms demo_store
   \<and> length (entry_terms demo_store) = 8"
proof -
  let ?ok = "reset_password_with_security_answer small_lib small_env (ascii ''alice'')
                (ascii ''Rex'') (ascii ''new-pw'') demo_store"
  have f: "fst ?ok = Inr ()" by code_simp
  then have h: "?ok = (Inr (), snd ?ok)" by (metis prod.collapse)
  have k: "\<not> foreign_keys small_env" by (simp add: small_env_def)
  from reset_password_term_rows[OF h] k have t: "entry_terms (snd ?ok) = entry_terms demo_store"
    by auto
  have e: "entries (snd ?ok) = []" by code_simp
  from f t e show ?thesis by (simp add: demo_terms)
qed

section \<open>Password change\<close>




















end
